theory Spec2Isabelle
  imports Main
begin

section \<open>Strings and bytes\<close>

text \<open>
  A Python \<^verbatim>\<open>str\<close> is a sequence of Unicode code points, a \<^verbatim>\<open>bytes\<close> object a
  sequence of octets. Code points are natural numbers here; octets are \<^typ>\<open>char\<close>
  (eight bits), so \<^typ>\<open>string\<close> is the type of \<^verbatim>\<open>bytes\<close>.
\<close>

type_synonym pystr = "nat list"

text \<open>The code points of an ASCII literal.\<close>

definition lit :: "string \<Rightarrow> pystr" where
  "lit cs = map of_char cs"

text \<open>
  \<^verbatim>\<open>str.isspace\<close> for one code point: the table of CPython's
  \<^verbatim>\<open>_PyUnicode_IsWhitespace\<close>.
\<close>

definition isspace :: "nat \<Rightarrow> bool" where
  "isspace c \<longleftrightarrow>
     (9 \<le> c \<and> c \<le> 13) \<or> (28 \<le> c \<and> c \<le> 32) \<or> c = 133 \<or> c = 160 \<or> c = 5760 \<or>
     (8192 \<le> c \<and> c \<le> 8202) \<or> c = 8232 \<or> c = 8233 \<or> c = 8239 \<or> c = 8287 \<or> c = 12288"

text \<open>
  \<^verbatim>\<open>str.strip()\<close> with no argument: the index of the first non-whitespace code point
  from the left, then the same from the right on what remains.
\<close>

definition lstrip :: "pystr \<Rightarrow> pystr" where
  "lstrip xs = dropWhile isspace xs"

definition rstrip :: "pystr \<Rightarrow> pystr" where
  "rstrip xs = rev (dropWhile isspace (rev xs))"

definition strip :: "pystr \<Rightarrow> pystr" where
  "strip xs = rstrip (lstrip xs)"

text \<open>
  The comparison of line 135 of \<^verbatim>\<open>txtchecker.py\<close>,
  \<^verbatim>\<open>txt.strip() == txt_record_to_check\<close>.
\<close>

definition txt_matches :: "pystr \<Rightarrow> pystr \<Rightarrow> bool" where
  "txt_matches txt target \<longleftrightarrow> strip txt = target"

text \<open>
  The specification's wording of the same predicate: the target is what is left of the
  fetched value once a run of whitespace is taken off each end, and that run is maximal
  (the remainder neither starts nor ends with whitespace).
\<close>

definition trimmed_equal :: "pystr \<Rightarrow> pystr \<Rightarrow> bool" where
  "trimmed_equal v target \<longleftrightarrow>
     (\<exists>l r. v = l @ target @ r \<and> list_all isspace l \<and> list_all isspace r \<and>
        (target \<noteq> [] \<longrightarrow> \<not> isspace (hd target) \<and> \<not> isspace (last target)))"


text \<open>
  \<^verbatim>\<open>bytes.decode()\<close> with its defaults (UTF-8, strict): \<open>None\<close> stands for
  \<^verbatim>\<open>UnicodeDecodeError\<close>. \<open>utf8_multi b bs\<close> reads a multi-byte sequence with lead
  byte \<open>b\<close> and returns the code point and the number of continuation bytes used; overlong
  forms, surrogates and code points above U+10FFFF are rejected.
\<close>

definition is_cont :: "nat \<Rightarrow> bool" where
  "is_cont b \<longleftrightarrow> 128 \<le> b \<and> b < 192"

definition utf8_multi :: "nat \<Rightarrow> nat list \<Rightarrow> (nat \<times> nat) option" where
  "utf8_multi b bs =
     (if 194 \<le> b \<and> b \<le> 223 then
        (case bs of
           b1 # _ \<Rightarrow> if is_cont b1 then Some ((b - 192) * 64 + (b1 - 128), 1) else None
         | _ \<Rightarrow> None)
      else if 224 \<le> b \<and> b \<le> 239 then
        (case bs of
           b1 # b2 # _ \<Rightarrow>
             (let cp = (b - 224) * 4096 + (b1 - 128) * 64 + (b2 - 128)
              in if is_cont b1 \<and> is_cont b2 \<and> 2048 \<le> cp \<and> \<not> (55296 \<le> cp \<and> cp \<le> 57343)
                 then Some (cp, 2) else None)
         | _ \<Rightarrow> None)
      else if 240 \<le> b \<and> b \<le> 244 then
        (case bs of
           b1 # b2 # b3 # _ \<Rightarrow>
             (let cp = (b - 240) * 262144 + (b1 - 128) * 4096 + (b2 - 128) * 64 + (b3 - 128)
              in if is_cont b1 \<and> is_cont b2 \<and> is_cont b3 \<and> 65536 \<le> cp \<and> cp \<le> 1114111
                 then Some (cp, 3) else None)
         | _ \<Rightarrow> None)
      else None)"

fun utf8 :: "nat list \<Rightarrow> pystr option" where
  "utf8 [] = Some []"
| "utf8 (b # bs) =
     (if b < 128 then map_option ((#) b) (utf8 bs)
      else (case utf8_multi b bs of
              None \<Rightarrow> None
            | Some (cp, k) \<Rightarrow> map_option ((#) cp) (utf8 (drop k bs))))"

definition decode :: "string \<Rightarrow> pystr option" where
  "decode bs = utf8 (map of_char bs)"

section \<open>Candidate generation\<close>

text \<open>\<^verbatim>\<open>generate_domains\<close> (lines 106-108): the word followed by each TLD, in TLD order.\<close>

definition generate_domains :: "pystr \<Rightarrow> pystr list \<Rightarrow> pystr list" where
  "generate_domains word tlds = map (\<lambda>tld. word @ tld) tlds"

text \<open>
  The state of the \<^verbatim>\<open>random\<close> module is an unbounded supply of raw draws, of which
  nothing is assumed. \<^verbatim>\<open>random.randint(a, b)\<close> (for \<open>a \<le> b\<close>) reduces one draw into
  \<open>[a, b]\<close>; \<^verbatim>\<open>random.choices(population, k=k)\<close> indexes a non-empty population with
  \<open>k\<close> draws.
\<close>

type_synonym rng = "nat \<Rightarrow> nat"

definition randint :: "nat \<Rightarrow> nat \<Rightarrow> rng \<Rightarrow> nat \<times> rng" where
  "randint a b g = (a + g 0 mod (b + 1 - a), \<lambda>i. g (Suc i))"

definition choices :: "'a list \<Rightarrow> nat \<Rightarrow> rng \<Rightarrow> 'a list \<times> rng" where
  "choices population k g =
     (map (\<lambda>i. population ! (g i mod length population)) [0..<k], \<lambda>i. g (i + k))"

definition ascii_lowercase :: pystr where
  "ascii_lowercase = lit ''abcdefghijklmnopqrstuvwxyz''"

text \<open>\<^verbatim>\<open>generate_random_domain\<close> (lines 110-114).\<close>

definition generate_random_domain :: "pystr list \<Rightarrow> rng \<Rightarrow> pystr list \<times> rng" where
  "generate_random_domain tlds g =
     (let (length, g1) = randint 3 8 g;
          (word, g2) = choices ascii_lowercase length g1
      in (map (\<lambda>tld. word @ tld) tlds, g2))"

section \<open>The resolver client\<close>

text \<open>
  What \<^verbatim>\<open>resolver.resolve(domain, 'TXT')\<close> can do: raise, or return the answer's
  resource records, each with its tuple of character-string segments
  (\<^verbatim>\<open>rdata.strings\<close>, a tuple of \<^verbatim>\<open>bytes\<close>). The first four exceptions are the ones
  line 125 names; \<open>YXDOMAIN\<close> is another exception of the resolver library,
  \<open>OtherError\<close> anything else a lookup may raise.
\<close>

datatype exn = NoAnswer | NXDOMAIN | Timeout | NoNameservers | YXDOMAIN
  | UnicodeDecodeError | OtherError string

type_synonym rdata = "string list"

type_synonym resolver = "pystr \<Rightarrow> exn + rdata list"

text \<open>The inner and the outer loop of lines 121-123, with \<open>txt_records\<close> as accumulator.\<close>

fun for_strings :: "string list \<Rightarrow> pystr list \<Rightarrow> exn + pystr list" where
  "for_strings [] txt_records = Inr txt_records"
| "for_strings (txt_string # rest) txt_records =
     (case decode txt_string of
        None \<Rightarrow> Inl UnicodeDecodeError
      | Some t \<Rightarrow> for_strings rest (txt_records @ [t]))"

fun for_answers :: "rdata list \<Rightarrow> pystr list \<Rightarrow> exn + pystr list" where
  "for_answers [] txt_records = Inr txt_records"
| "for_answers (rdata # rest) txt_records =
     (case for_strings rdata txt_records of
        Inl e \<Rightarrow> Inl e
      | Inr txt_records' \<Rightarrow> for_answers rest txt_records')"

text \<open>The exception classes of the \<^verbatim>\<open>except\<close> clause of line 125.\<close>

definition caught :: "exn \<Rightarrow> bool" where
  "caught e \<longleftrightarrow> e = NoAnswer \<or> e = NXDOMAIN \<or> e = Timeout \<or> e = NoNameservers"

text \<open>
  \<^verbatim>\<open>fetch_txt_records\<close> (lines 116-127): the body of the \<^verbatim>\<open>try\<close>, then the handler.
  An exception the handler does not name leaves the function.
\<close>

definition fetch_txt_records :: "pystr \<Rightarrow> resolver \<Rightarrow> exn + pystr list" where
  "fetch_txt_records domain resolver =
     (case (case resolver domain of
              Inl e \<Rightarrow> Inl e
            | Inr answers \<Rightarrow> for_answers answers []) of
        Inl e \<Rightarrow> if caught e then Inr [] else Inl e
      | Inr txt_records \<Rightarrow> Inr txt_records)"

section \<open>The shared run state\<close>

text \<open>
  The module's globals while workers run. \<open>txt_record_to_check\<close> and the TLDs are
  assigned by \<^verbatim>\<open>main\<close> (lines 215-218) before any worker starts and never again.
  Two fields are not variables of the program: \<open>queries\<close> is the trace of the calls of
  \<^verbatim>\<open>resolver.resolve\<close>, in order, and \<open>stop_in\<close> is the rest of the process as a
  worker can observe it: \<open>Some k\<close> when another thread (the signal handler, the
  coordinator) sets \<open>stop_event\<close> after \<open>k\<close> more reads of the flag, \<open>None\<close> when nobody
  does. The flag is never cleared.
\<close>

record run_state =
  stop_event :: bool
  domain_count :: int
  successful_domains :: "pystr list"
  txt_record_to_check :: pystr
  queries :: "pystr list"
  stop_in :: "nat option"

definition other_threads :: "run_state \<Rightarrow> run_state" where
  "other_threads s =
     (case stop_in s of
        None \<Rightarrow> s
      | Some 0 \<Rightarrow> s\<lparr>stop_event := True, stop_in := None\<rparr>
      | Some (Suc k) \<Rightarrow> s\<lparr>stop_in := Some k\<rparr>)"

text \<open>\<^verbatim>\<open>stop_event.is_set()\<close>: what the other threads did so far, then the read.\<close>

definition is_set :: "run_state \<Rightarrow> bool \<times> run_state" where
  "is_set s = (let s' = other_threads s in (stop_event s', s'))"

section \<open>Probing\<close>

text \<open>
  The loop of lines 134-138 of \<^verbatim>\<open>check_txt\<close>: the first matching value appends the
  domain to \<open>successful_domains\<close> and returns \<open>True\<close>; the values after it are not
  looked at. (The message written to the terminal is left out.)
\<close>

fun for_txt_records :: "pystr list \<Rightarrow> pystr \<Rightarrow> run_state \<Rightarrow> bool \<times> run_state" where
  "for_txt_records [] domain s = (False, s)"
| "for_txt_records (txt # rest) domain s =
     (if txt_matches txt (txt_record_to_check s)
      then (True, s\<lparr>successful_domains := successful_domains s @ [domain]\<rparr>)
      else for_txt_records rest domain s)"

text \<open>\<^verbatim>\<open>check_txt\<close> (lines 129-139).\<close>

definition check_txt :: "pystr \<Rightarrow> resolver \<Rightarrow> run_state \<Rightarrow> (exn + bool) \<times> run_state" where
  "check_txt domain resolver s =
     (let (stopped, s1) = is_set s
      in if stopped then (Inr False, s1)
         else (let s2 = s1\<lparr>queries := queries s1 @ [domain]\<rparr>
               in case fetch_txt_records domain resolver of
                    Inl e \<Rightarrow> (Inl e, s2)
                  | Inr txt_records \<Rightarrow>
                      (let (found, s3) = for_txt_records txt_records domain s2
                       in (Inr found, s3))))"

text \<open>
  The \<^verbatim>\<open>for domain in domains\<close> loop, which \<^verbatim>\<open>check_domains\<close> (lines 146-151) and
  \<^verbatim>\<open>check_domains_from_word\<close> (lines 158-163) both have, statement for statement.
\<close>

fun for_domains :: "pystr list \<Rightarrow> resolver \<Rightarrow> run_state \<Rightarrow> (exn + unit) \<times> run_state" where
  "for_domains [] resolver s = (Inr (), s)"
| "for_domains (domain # rest) resolver s =
     (let (stopped, s1) = is_set s
      in if stopped then (Inr (), s1)
         else (let s2 = s1\<lparr>domain_count := domain_count s1 + 1\<rparr>
               in case check_txt domain resolver s2 of
                    (Inl e, s3) \<Rightarrow> (Inl e, s3)
                  | (Inr found, s3) \<Rightarrow>
                      for_domains rest resolver
                        (if found
                         then s3\<lparr>successful_domains := successful_domains s3 @ [domain]\<rparr>
                         else s3)))"

text \<open>
  \<^verbatim>\<open>check_domains_from_word\<close> (lines 154-164). What it returns is the shared list
  \<open>successful_domains\<close> itself.
\<close>

definition check_domains_from_word ::
  "pystr \<Rightarrow> pystr list \<Rightarrow> resolver \<Rightarrow> run_state \<Rightarrow> (exn + pystr list) \<times> run_state" where
  "check_domains_from_word word tlds resolver s =
     (let domains = generate_domains word tlds
      in case for_domains domains resolver s of
           (Inl e, s') \<Rightarrow> (Inl e, s')
         | (Inr _, s') \<Rightarrow> (Inr (successful_domains s'), s'))"

text \<open>
  \<^verbatim>\<open>check_domains\<close> (lines 141-152). The \<^verbatim>\<open>while\<close> loop may run forever, so the
  function takes a bound on the number of its iterations: the result \<open>None\<close> says that
  the worker is still in the loop after that many, in the state returned with it. (The
  parameter \<^verbatim>\<open>auto\<close> is not used by the source.)
\<close>

fun check_domains ::
  "nat \<Rightarrow> pystr list \<Rightarrow> resolver \<Rightarrow> rng \<Rightarrow> run_state \<Rightarrow> (exn + pystr list) option \<times> run_state" where
  "check_domains 0 tlds resolver g s = (None, s)"
| "check_domains (Suc n) tlds resolver g s =
     (let (stopped, s1) = is_set s
      in if stopped then (Some (Inr (successful_domains s1)), s1)
         else (let (domains, g1) = generate_random_domain tlds g
               in case for_domains domains resolver s1 of
                    (Inl e, s2) \<Rightarrow> (Some (Inl e), s2)
                  | (Inr _, s2) \<Rightarrow> check_domains n tlds resolver g1 s2))"

section \<open>The result sink and the exhaustive mode\<close>

text \<open>
  \<^verbatim>\<open>print_final_output\<close> (lines 180-189): the content written to
  \<^verbatim>\<open>successful_domains.txt\<close>, or \<open>None\<close> when the file is not written.
\<close>

definition print_final_output :: "run_state \<Rightarrow> pystr option" where
  "print_final_output s =
     (if successful_domains s \<noteq> []
      then Some (concat (map (\<lambda>domain. domain @ [10]) (successful_domains s)))
      else None)"

text \<open>
  The word tasks of lines 247-249 as a pool of one worker thread (\<^verbatim>\<open>-w 1\<close>) runs them:
  one after the other, in the order of the word list. The result of each future is kept:
  the returned list, or the exception that ended the task.
\<close>

fun run_word_tasks ::
  "pystr list \<Rightarrow> pystr list \<Rightarrow> resolver \<Rightarrow> run_state \<Rightarrow> (exn + pystr list) list \<times> run_state" where
  "run_word_tasks [] tlds resolver s = ([], s)"
| "run_word_tasks (word # rest) tlds resolver s =
     (let (result, s1) = check_domains_from_word word tlds resolver s;
          (results, s2) = run_word_tasks rest tlds resolver s1
      in (result # results, s2))"


text \<open>
  The exhaustive branch of \<^verbatim>\<open>main\<close> (lines 246-267) with one worker thread: the
  tasks, then \<^verbatim>\<open>stop_event.set()\<close>, then the result sink. An exception of a task is
  caught at line 259 and does not end the run.
\<close>

definition initial_state :: "pystr \<Rightarrow> run_state" where
  "initial_state txt =
     \<lparr>stop_event = False, domain_count = 0, successful_domains = [],
      txt_record_to_check = txt, queries = [], stop_in = None\<rparr>"

definition main_word_list ::
  "pystr list \<Rightarrow> pystr list \<Rightarrow> resolver \<Rightarrow> pystr \<Rightarrow> pystr option \<times> run_state" where
  "main_word_list words tlds resolver txt =
     (let (results, s1) = run_word_tasks words tlds resolver (initial_state txt);
          s2 = s1\<lparr>stop_event := True\<rparr>
      in (print_final_output s2, s2))"

section \<open>The continuous mode of the coordinator\<close>

text \<open>
  The branch of \<^verbatim>\<open>main\<close> for \<^verbatim>\<open>--auto\<close> (lines 234-245 and 264-267) as a transition
  system over the threads of the process. A future is \<open>Running\<close> until its call of
  \<^verbatim>\<open>check_domains\<close> returns or raises. The main thread is in the loop over
  \<^verbatim>\<open>as_completed(futures)\<close>, or leaving the \<^verbatim>\<open>with\<close> block (which waits for every
  worker), or unwinding from \<^verbatim>\<open>sys.exit\<close> in the signal handler, or past line 267.
  \<open>elapsed\<close> is \<^verbatim>\<open>time.time() - start_time\<close> in whole seconds, \<open>yielded\<close> the number of
  futures the iterator has handed out, \<open>sink_runs\<close> the number of calls of
  \<^verbatim>\<open>print_final_output\<close>.
\<close>

datatype future = Running | Completed

datatype main_thread = As_Completed | Leaving_With | Exiting | Finished

record auto_run =
  flag :: bool
  elapsed :: int
  time_arg :: "int option"
  futures :: "future list"
  yielded :: nat
  main_at :: main_thread
  sink_runs :: nat

text \<open>
  What can happen next: a second passes; worker \<open>i\<close> evaluates the test of its
  \<^verbatim>\<open>while\<close> loop (line 144), after a batch or after a \<^verbatim>\<open>break\<close>; a lookup of worker \<open>i\<close>
  raises an exception that \<^verbatim>\<open>fetch_txt_records\<close> does not catch; the main thread
  runs as far as it can; the operator interrupts.
\<close>

datatype event = Tick | Worker_Loop nat | Worker_Raise nat | Main_Thread | Interrupt

definition all_completed :: "auto_run \<Rightarrow> bool" where
  "all_completed s \<longleftrightarrow> list_all (\<lambda>f. f = Completed) (futures s)"

text \<open>Line 241, \<^verbatim>\<open>args.time and (time.time() - start_time) > args.time\<close>.\<close>

definition time_is_up :: "auto_run \<Rightarrow> bool" where
  "time_is_up s =
     (case time_arg s of None \<Rightarrow> False | Some t \<Rightarrow> t \<noteq> 0 \<and> elapsed s > t)"

text \<open>
  The main thread. In the loop, \<^verbatim>\<open>as_completed\<close> hands out a future only once it has
  completed, ends when it has handed out all of them, and blocks otherwise; the loop body
  (lines 239-243) runs once per future handed out.
\<close>

definition main_step :: "auto_run \<Rightarrow> auto_run" where
  "main_step s =
     (case main_at s of
        As_Completed \<Rightarrow>
          if yielded s < length (filter (\<lambda>f. f = Completed) (futures s)) then
            (let s1 = s\<lparr>yielded := yielded s + 1\<rparr>
             in if flag s1 then s1\<lparr>main_at := Leaving_With\<rparr>
                else if time_is_up s1 then s1\<lparr>flag := True, main_at := Leaving_With\<rparr>
                else s1)
          else if yielded s = length (futures s) then s\<lparr>main_at := Leaving_With\<rparr>
          else s
      | Leaving_With \<Rightarrow>
          if all_completed s
          then s\<lparr>flag := True, sink_runs := sink_runs s + 1, main_at := Finished\<rparr>
          else s
      | Exiting \<Rightarrow> if all_completed s then s\<lparr>main_at := Finished\<rparr> else s
      | Finished \<Rightarrow> s)"

fun step :: "event \<Rightarrow> auto_run \<Rightarrow> auto_run" where
  "step Tick s = s\<lparr>elapsed := elapsed s + 1\<rparr>"
| "step (Worker_Loop i) s =
     (if i < length (futures s) \<and> futures s ! i = Running \<and> flag s
      then s\<lparr>futures := (futures s)[i := Completed]\<rparr> else s)"
| "step (Worker_Raise i) s =
     (if i < length (futures s) then s\<lparr>futures := (futures s)[i := Completed]\<rparr> else s)"
| "step Main_Thread s = main_step s"
| "step Interrupt s =
     (if main_at s = Finished then s
      else s\<lparr>flag := True, sink_runs := sink_runs s + 1, main_at := Exiting\<rparr>)"

fun run :: "event list \<Rightarrow> auto_run \<Rightarrow> auto_run" where
  "run [] s = s"
| "run (e # es) s = run es (step e s)"

text \<open>
  The process when line 236 has submitted the \<open>workers\<close> tasks (\<^verbatim>\<open>--workers\<close>, at least
  one: the pool refuses to be built with none).
\<close>

definition auto_start :: "nat \<Rightarrow> int option \<Rightarrow> auto_run" where
  "auto_start workers t =
     \<lparr>flag = False, elapsed = 0, time_arg = t, futures = replicate workers Running,
      yielded = 0, main_at = As_Completed, sink_runs = 0\<rparr>"

text \<open>The events of a run in which no lookup raises past the resolver client and nobody interrupts.\<close>

fun undisturbed :: "event \<Rightarrow> bool" where
  "undisturbed Tick = True"
| "undisturbed (Worker_Loop i) = True"
| "undisturbed Main_Thread = True"
| "undisturbed (Worker_Raise i) = False"
| "undisturbed Interrupt = False"

section \<open>Notions the claims are stated with\<close>

text \<open>
  A candidate carries the target when one of the values fetched for it matches: what
  \<^verbatim>\<open>check_txt\<close> looks for once it has passed its own test of the stop flag.
\<close>

definition candidate_matches :: "resolver \<Rightarrow> pystr \<Rightarrow> pystr \<Rightarrow> bool" where
  "candidate_matches resolver target domain =
     (case fetch_txt_records domain resolver of
        Inl e \<Rightarrow> False
      | Inr txt_records \<Rightarrow> list_ex (\<lambda>t. txt_matches t target) txt_records)"

text \<open>
  Between two states of a run: by how much the processed count grew, how many lookups
  were issued, and which.
\<close>

definition counted :: "run_state \<Rightarrow> run_state \<Rightarrow> int" where
  "counted s s' = domain_count s' - domain_count s"

definition queried :: "run_state \<Rightarrow> run_state \<Rightarrow> int" where
  "queried s s' = int (length (queries s')) - int (length (queries s))"


text \<open>
  The relation every stretch of a worker's execution keeps between its first and its last
  state: the flag stays set once it is set, nothing is counted or looked up once it is
  set, and the count runs ahead of the lookups by at most the one candidate that was
  counted and then skipped by \<^verbatim>\<open>check_txt\<close>, which can happen only when another
  thread sets the flag.
\<close>

definition accounted :: "run_state \<Rightarrow> run_state \<Rightarrow> bool" where
  "accounted s s' \<longleftrightarrow>
     (stop_event s \<longrightarrow> stop_event s' \<and> counted s s' = 0 \<and> queried s s' = 0) \<and>
     (stop_in s = None \<longrightarrow> stop_in s' = None \<and> stop_event s' = stop_event s \<and>
        counted s s' = queried s s') \<and>
     0 \<le> queried s s' \<and>
     (counted s s' = queried s s' \<or> counted s s' = queried s s' + 1 \<and> stop_event s')"


text \<open>
  The continuous mode with nothing finished: the flag is not set, every worker is in its
  loop and the main thread is inside \<^verbatim>\<open>as_completed\<close>, which has handed out nothing.
\<close>

definition waiting :: "auto_run \<Rightarrow> bool" where
  "waiting s \<longleftrightarrow>
     \<not> flag s \<and> main_at s = As_Completed \<and> yielded s = 0 \<and> sink_runs s = 0 \<and>
     futures s \<noteq> [] \<and> list_all (\<lambda>f. f = Running) (futures s)"

text \<open>
  A name server for the examples: \<^verbatim>\<open>acme.se\<close> has one TXT record, of one segment,
  \<^verbatim>\<open>v=spf1 -all\<close>; no other name exists.
\<close>

definition acme_dns :: resolver where
  "acme_dns domain =
     (if domain = lit ''acme.se'' then Inr [[''v=spf1 -all'']] else Inl NXDOMAIN)"

text \<open>
  Further name servers: one whose only record has two segments, for every name, and one
  whose every lookup fails with an exception that line 125 does not name.
\<close>

definition split_dns :: resolver where
  "split_dns domain = Inr [[''v=spf1 '', ''-all'']]"

definition yxdomain_dns :: resolver where
  "yxdomain_dns domain = Inl YXDOMAIN"

text \<open>A supply of draws, and a run in which another thread sets the flag after two reads.\<close>

definition example_draws :: rng where
  "example_draws i = 7 * i + 4"


text \<open>A schedule: \<open>n\<close> times a second, an iteration of worker 0, a turn of the main thread.\<close>

definition round_robin :: "nat \<Rightarrow> event list" where
  "round_robin n = concat (replicate n [Tick, Worker_Loop 0, Main_Thread])"

section \<open>Trimming\<close>

lemma lstrip_decomp: "xs = takeWhile isspace xs @ lstrip xs"
  by (simp add: lstrip_def)

lemma rstrip_decomp: "xs = rstrip xs @ rev (takeWhile isspace (rev xs))"
  unfolding rstrip_def by (metis rev_append rev_rev_ident takeWhile_dropWhile_id)

lemma strip_decomp:
  "\<exists>l r. v = l @ strip v @ r \<and> list_all isspace l \<and> list_all isspace r"
proof -
  let ?l = "takeWhile isspace v"
  let ?r = "rev (takeWhile isspace (rev (lstrip v)))"
  have "v = ?l @ lstrip v" by (rule lstrip_decomp)
  moreover have "lstrip v = strip v @ ?r" unfolding strip_def by (rule rstrip_decomp)
  ultimately have "v = ?l @ strip v @ ?r" by simp
  moreover have "list_all isspace ?l" by (auto simp: list_all_iff dest: set_takeWhileD)
  moreover have "list_all isspace ?r" by (auto simp: list_all_iff dest: set_takeWhileD)
  ultimately show ?thesis by blast
qed

lemma strip_last: "strip v \<noteq> [] \<Longrightarrow> \<not> isspace (last (strip v))"
proof -
  let ?d = "dropWhile isspace (rev (lstrip v))"
  assume "strip v \<noteq> []"
  then have ne: "?d \<noteq> []" by (simp add: strip_def rstrip_def)
  then have "\<not> isspace (hd ?d)" by (rule hd_dropWhile)
  moreover have "last (rev ?d) = hd ?d" using ne by (simp add: last_rev)
  ultimately show ?thesis by (simp add: strip_def rstrip_def)
qed

lemma strip_hd: "strip v \<noteq> [] \<Longrightarrow> \<not> isspace (hd (strip v))"
proof -
  assume ne: "strip v \<noteq> []"
  have d: "lstrip v = strip v @ rev (takeWhile isspace (rev (lstrip v)))"
    unfolding strip_def by (rule rstrip_decomp)
  from ne d have ne': "lstrip v \<noteq> []" by auto
  from ne have "hd (strip v @ rev (takeWhile isspace (rev (lstrip v)))) = hd (strip v)"
    by simp
  with d have "hd (lstrip v) = hd (strip v)" by simp
  moreover from ne' have "\<not> isspace (hd (lstrip v))"
    unfolding lstrip_def by (rule hd_dropWhile)
  ultimately show ?thesis by simp
qed

lemma strip_of_padded:
  assumes l: "list_all isspace l" and r: "list_all isspace r"
    and t: "t \<noteq> [] \<longrightarrow> \<not> isspace (hd t) \<and> \<not> isspace (last t)"
  shows "strip (l @ t @ r) = t"
proof (cases "t = []")
  case True
  from l r have "\<forall>x\<in>set (l @ r). isspace x" by (auto simp: list_all_iff)
  then have "dropWhile isspace (l @ r) = []" by (simp only: dropWhile_eq_Nil_conv)
  then have "lstrip (l @ t @ r) = []" using True by (simp only: lstrip_def append_Nil)
  then have "strip (l @ t @ r) = rstrip []" by (simp only: strip_def)
  then show ?thesis using True by (simp add: rstrip_def)
next
  case False
  with t have h: "\<not> isspace (hd t)" and la: "\<not> isspace (last t)" by simp_all
  from False obtain a t' where t_eq: "t = a # t'" by (cases t) auto
  with h have a: "\<not> isspace a" by simp
  from l have "\<And>x. x \<in> set l \<Longrightarrow> isspace x" by (simp add: list_all_iff)
  then have "dropWhile isspace (l @ t @ r) = dropWhile isspace (t @ r)"
    by (rule dropWhile_append2)
  also have "\<dots> = t @ r" using a t_eq by simp
  finally have ls: "lstrip (l @ t @ r) = t @ r" by (simp add: lstrip_def)
  from False obtain b t'' where rt: "rev t = b # t''" by (cases "rev t") auto
  then have "rev (rev t) = rev (b # t'')" by simp
  then have "t = rev t'' @ [b]" by simp
  then have "b = last t" by simp
  with la have b: "\<not> isspace b" by simp
  from r have "\<And>x. x \<in> set (rev r) \<Longrightarrow> isspace x" by (simp add: list_all_iff)
  then have "dropWhile isspace (rev r @ rev t) = dropWhile isspace (rev t)"
    by (rule dropWhile_append2)
  also have "\<dots> = rev t" using rt b by simp
  finally have "rstrip (t @ r) = t" by (simp add: rstrip_def)
  with ls show ?thesis by (simp add: strip_def)
qed


text \<open>
  Claim C8. The match predicate of line 135 is true exactly when the fetched value, with
  the whitespace at its two ends taken off, is the target string: the value is the target
  between two runs of whitespace, and the target itself has no whitespace at either end.
  Nothing else is normalised, the comparison being equality of code-point sequences.
\<close>

theorem matches_iff_trimmed_equal: "txt_matches v target \<longleftrightarrow> trimmed_equal v target"
proof
  assume "txt_matches v target"
  then have eq: "target = strip v" by (simp add: txt_matches_def)
  from strip_decomp [of v] obtain l r
    where d: "v = l @ strip v @ r \<and> list_all isspace l \<and> list_all isspace r" by blast
  have e: "strip v \<noteq> [] \<longrightarrow> \<not> isspace (hd (strip v)) \<and> \<not> isspace (last (strip v))"
    using strip_hd [of v] strip_last [of v] by blast
  have "trimmed_equal v (strip v)"
    unfolding trimmed_equal_def
    by (rule exI [of _ l], rule exI [of _ r]) (use d e in blast)
  with eq show "trimmed_equal v target" by simp
next
  assume "trimmed_equal v target"
  then obtain l r where v: "v = l @ target @ r" and l: "list_all isspace l"
    and r: "list_all isspace r"
    and t: "target \<noteq> [] \<longrightarrow> \<not> isspace (hd target) \<and> \<not> isspace (last target)"
    unfolding trimmed_equal_def by blast
  from strip_of_padded [OF l r t] v show "txt_matches v target"
    by (simp only: txt_matches_def)
qed

theorem matches_iff_trimmed_equal_witness:
  "txt_matches (lit '' v=spf1 a ~all  '') (lit ''v=spf1 a ~all'') \<and>
   trimmed_equal (lit '' v=spf1 a ~all  '') (lit ''v=spf1 a ~all'') \<and>
   \<not> trimmed_equal (lit ''V=SPF1 a ~all'') (lit ''v=spf1 a ~all'') \<and>
   \<not> trimmed_equal (lit ''v=spf1  a ~all'') (lit ''v=spf1 a ~all'')"
proof -
  have 1: "txt_matches (lit '' v=spf1 a ~all  '') (lit ''v=spf1 a ~all'')"
    by (simp add: txt_matches_def strip_def lstrip_def rstrip_def lit_def isspace_def)
  have 2: "\<not> txt_matches (lit ''V=SPF1 a ~all'') (lit ''v=spf1 a ~all'')"
    by (simp add: txt_matches_def strip_def lstrip_def rstrip_def lit_def isspace_def)
  have 3: "\<not> txt_matches (lit ''v=spf1  a ~all'') (lit ''v=spf1 a ~all'')"
    by (simp add: txt_matches_def strip_def lstrip_def rstrip_def lit_def isspace_def)
  from 1 2 3 show ?thesis by (simp add: matches_iff_trimmed_equal [symmetric])
qed

section \<open>Targets with whitespace at an end\<close>

lemma for_txt_records_no_match:
  "\<forall>txt\<in>set txts. \<not> txt_matches txt (txt_record_to_check s) \<Longrightarrow>
   for_txt_records txts domain s = (False, s)"
  by (induction txts) simp_all

lemma check_txt_no_match:
  assumes "\<And>txt. \<not> txt_matches txt (txt_record_to_check s)"
  shows "fst (check_txt domain resolver s) \<noteq> Inr True \<and>
         successful_domains (snd (check_txt domain resolver s)) = successful_domains s"
proof -
  have t: "txt_record_to_check (other_threads s) = txt_record_to_check s"
    by (simp add: other_threads_def split: option.split nat.split)
  have sd: "successful_domains (other_threads s) = successful_domains s"
    by (simp add: other_threads_def split: option.split nat.split)
  have "for_txt_records txts domain (other_threads s\<lparr>queries := q\<rparr>)
        = (False, other_threads s\<lparr>queries := q\<rparr>)" for txts q
    by (rule for_txt_records_no_match) (simp add: t assms)
  then show ?thesis
    by (simp add: check_txt_def is_set_def Let_def sd split: sum.split)
qed

text \<open>
  Claim C10. A target string that starts or ends with whitespace matches no fetched value,
  not even one equal to it: only the fetched value is trimmed. \<^verbatim>\<open>check_txt\<close> then
  never returns \<open>True\<close> and never adds to \<open>successful_domains\<close>.
\<close>

theorem padded_target_never_matches:
  assumes "target \<noteq> []" and "isspace (hd target) \<or> isspace (last target)"
  shows "\<not> txt_matches v target \<and>
         (txt_record_to_check s = target \<longrightarrow>
            fst (check_txt domain resolver s) \<noteq> Inr True \<and>
            successful_domains (snd (check_txt domain resolver s)) = successful_domains s)"
proof -
  have no: "\<not> txt_matches x target" for x
  proof
    assume "txt_matches x target"
    then have eq: "strip x = target" by (simp add: txt_matches_def)
    with assms(1) have "strip x \<noteq> []" by simp
    then have "\<not> isspace (hd (strip x)) \<and> \<not> isspace (last (strip x))"
      using strip_hd strip_last by blast
    with eq assms(2) show False by simp
  qed
  show ?thesis
  proof (intro conjI impI)
    show "\<not> txt_matches v target" by (rule no)
  next
    assume "txt_record_to_check s = target"
    then have "\<And>txt. \<not> txt_matches txt (txt_record_to_check s)" by (simp add: no)
    then show "fst (check_txt domain resolver s) \<noteq> Inr True"
      by (rule check_txt_no_match [THEN conjunct1])
  next
    assume "txt_record_to_check s = target"
    then have "\<And>txt. \<not> txt_matches txt (txt_record_to_check s)" by (simp add: no)
    then show "successful_domains (snd (check_txt domain resolver s)) = successful_domains s"
      by (rule check_txt_no_match [THEN conjunct2])
  qed
qed

theorem padded_target_never_matches_witness:
  "\<not> txt_matches (lit '' abc'') (lit '' abc'') \<and>
   fst (check_txt (lit ''a.com'') (\<lambda>d. Inr [['' abc'']]) (initial_state (lit '' abc'')))
     \<noteq> Inr True"
proof -
  have 1: "lit '' abc'' \<noteq> []" by (simp add: lit_def)
  have 2: "isspace (hd (lit '' abc'')) \<or> isspace (last (lit '' abc''))"
    by (simp add: lit_def isspace_def)
  have 3: "txt_record_to_check (initial_state (lit '' abc'')) = lit '' abc''"
    by (simp add: initial_state_def)
  from padded_target_never_matches [OF 1 2, of "lit '' abc''" "initial_state (lit '' abc'')"] 3
  show ?thesis by blast
qed

section \<open>Random candidates\<close>

lemma ascii_lowercase_length: "length ascii_lowercase = 26"
  by (simp add: ascii_lowercase_def lit_def)

lemma ascii_lowercase_letters: "c \<in> set ascii_lowercase \<Longrightarrow> 97 \<le> c \<and> c \<le> 122"
  by (auto simp add: ascii_lowercase_def lit_def)

text \<open>
  Claim C9. Whatever the random draws are, \<^verbatim>\<open>generate_random_domain\<close> returns one
  candidate per TLD, in the order of the TLDs: one label of 3 to 8 code points, each of
  them a lowercase ASCII letter (97 to 122), followed by that TLD.
\<close>

theorem generate_random_domain_shape:
  "\<exists>label. fst (generate_random_domain tlds g) = map (\<lambda>tld. label @ tld) tlds \<and>
     length (fst (generate_random_domain tlds g)) = length tlds \<and>
     3 \<le> length label \<and> length label \<le> 8 \<and> (\<forall>c\<in>set label. 97 \<le> c \<and> c \<le> 122)"
proof -
  let ?n = "3 + g 0 mod 6"
  let ?label = "map (\<lambda>i. ascii_lowercase ! (g (Suc i) mod 26)) [0..<?n]"
  have gen: "fst (generate_random_domain tlds g) = map (\<lambda>tld. ?label @ tld) tlds"
    by (simp add: generate_random_domain_def randint_def choices_def ascii_lowercase_length)
  have len: "length ?label = ?n" by simp
  have "g 0 mod 6 < 6" by simp
  then have bounds: "3 \<le> length ?label \<and> length ?label \<le> 8" unfolding len by linarith
  have letters: "\<forall>c\<in>set ?label. 97 \<le> c \<and> c \<le> 122"
  proof
    fix c assume "c \<in> set ?label"
    then obtain i where "c = ascii_lowercase ! (g (Suc i) mod 26)" by auto
    moreover have "g (Suc i) mod 26 < length ascii_lowercase"
      by (simp add: ascii_lowercase_length)
    ultimately have "c \<in> set ascii_lowercase" by (simp only: nth_mem)
    then show "97 \<le> c \<and> c \<le> 122" by (rule ascii_lowercase_letters)
  qed
  from gen bounds letters show ?thesis by (intro exI [of _ ?label]) simp
qed

theorem generate_random_domain_shape_witness:
  "fst (generate_random_domain [lit ''.com'', lit ''.se''] example_draws)
     = [lit ''lszgnub.com'', lit ''lszgnub.se''] \<and>
   (\<exists>label. fst (generate_random_domain [lit ''.com'', lit ''.se''] example_draws)
        = map (\<lambda>tld. label @ tld) [lit ''.com'', lit ''.se''] \<and>
      3 \<le> length label \<and> length label \<le> 8 \<and> (\<forall>c\<in>set label. 97 \<le> c \<and> c \<le> 122))"
proof -
  have "fst (generate_random_domain [lit ''.com'', lit ''.se''] example_draws)
     = [lit ''lszgnub.com'', lit ''lszgnub.se'']"
    by code_simp
  moreover from generate_random_domain_shape [of "[lit ''.com'', lit ''.se'']" example_draws]
  have "\<exists>label. fst (generate_random_domain [lit ''.com'', lit ''.se''] example_draws)
        = map (\<lambda>tld. label @ tld) [lit ''.com'', lit ''.se''] \<and>
      3 \<le> length label \<and> length label \<le> 8 \<and> (\<forall>c\<in>set label. 97 \<le> c \<and> c \<le> 122)"
    by blast
  ultimately show ?thesis by (rule conjI)
qed

section \<open>Failures and segments in the resolver client\<close>

text \<open>
  Claim C3, as the source has it. \<^verbatim>\<open>fetch_txt_records\<close> returns the empty list for
  the four failures its handler names; every other failure of the lookup leaves the
  function as an exception.
\<close>

theorem fetch_txt_records_failures:
  "resolver domain = Inl e \<Longrightarrow>
   fetch_txt_records domain resolver =
     (if e = NoAnswer \<or> e = NXDOMAIN \<or> e = Timeout \<or> e = NoNameservers then Inr [] else Inl e)"
  by (simp add: fetch_txt_records_def caught_def)

theorem fetch_txt_records_failures_witness:
  "fetch_txt_records (lit ''a.com'') (\<lambda>d. Inl Timeout) = Inr [] \<and>
   fetch_txt_records (lit ''a.com'') (\<lambda>d. Inl (OtherError ''socket'')) = Inl (OtherError ''socket'')"
  using fetch_txt_records_failures [of "\<lambda>d. Inl Timeout" "lit ''a.com''" Timeout]
    fetch_txt_records_failures [of "\<lambda>d. Inl (OtherError ''socket'')" "lit ''a.com''" "OtherError ''socket''"]
  by simp

text \<open>
  Claim C3 as stated fails: a lookup that raises \<open>YXDOMAIN\<close> does not yield the empty
  list, the exception leaves \<^verbatim>\<open>fetch_txt_records\<close>.
\<close>

theorem fetch_other_failure_propagates:
  "fetch_txt_records (lit ''a.com'') yxdomain_dns \<noteq> Inr [] \<and>
   fetch_txt_records (lit ''a.com'') yxdomain_dns = Inl YXDOMAIN"
  by (simp add: fetch_txt_records_def caught_def yxdomain_dns_def)

text \<open>
  What \<^verbatim>\<open>fetch_txt_records\<close> returns for an answer: the decoded segments of all its
  records, one entry per segment. Only the decoding can raise inside the two loops.
\<close>

lemma for_strings_decodes:
  "for_strings segs acc = Inr r \<Longrightarrow> map Some r = map Some acc @ map decode segs"
  by (induction segs arbitrary: acc) (auto split: option.splits)

lemma for_answers_decodes:
  "for_answers answers acc = Inr r \<Longrightarrow> map Some r = map Some acc @ map decode (concat answers)"
proof (induction answers arbitrary: acc)
  case Nil
  then show ?case by simp
next
  case (Cons rdata rest)
  then obtain acc' where 1: "for_strings rdata acc = Inr acc'"
    and 2: "for_answers rest acc' = Inr r"
    by (auto split: sum.splits)
  from for_strings_decodes [OF 1] Cons.IH [OF 2] show ?case by simp
qed

lemma for_strings_raises: "for_strings segs acc = Inl e \<Longrightarrow> e = UnicodeDecodeError"
  by (induction segs arbitrary: acc) (auto split: option.splits)

lemma for_answers_raises: "for_answers answers acc = Inl e \<Longrightarrow> e = UnicodeDecodeError"
  by (induction answers arbitrary: acc) (auto split: sum.splits dest: for_strings_raises)

lemma fetch_one_entry_per_segment:
  assumes "resolver domain = Inr answers" and "fetch_txt_records domain resolver = Inr txts"
  shows "map Some txts = map decode (concat answers)"
    and "length txts = length (concat answers)"
proof -
  from assms have "for_answers answers [] = Inr txts"
    by (auto simp add: fetch_txt_records_def caught_def split: sum.splits if_splits
        dest: for_answers_raises)
  from for_answers_decodes [OF this] show 1: "map Some txts = map decode (concat answers)"
    by simp
  from arg_cong [OF 1, of length] show "length txts = length (concat answers)" by simp
qed

text \<open>
  Claim C4 at a record of two segments: \<^verbatim>\<open>fetch_txt_records\<close> returns two strings,
  one per segment, and not the one string \<^verbatim>\<open>v=spf1 -all\<close> of the record.
\<close>

theorem fetch_splits_segments:
  "fetch_txt_records (lit ''a.com'') split_dns = Inr [lit ''v=spf1 '', lit ''-all''] \<and>
   fetch_txt_records (lit ''a.com'') split_dns \<noteq> Inr [lit ''v=spf1 -all'']"
  by code_simp

section \<open>The processed count\<close>



lemma other_threads_fields:
  "domain_count (other_threads s) = domain_count s"
  "queries (other_threads s) = queries s"
  "successful_domains (other_threads s) = successful_domains s"
  "txt_record_to_check (other_threads s) = txt_record_to_check s"
  "stop_event s \<Longrightarrow> stop_event (other_threads s)"
  "stop_in s = None \<Longrightarrow> other_threads s = s"
  by (simp_all add: other_threads_def split: option.split nat.split)




lemma accounted_successful_domains [simp]:
  "accounted s (s'\<lparr>successful_domains := x\<rparr>) = accounted s s'"
  by (simp add: accounted_def counted_def queried_def)







text \<open>
  Every worker returns at the first test of its loop that finds the flag set, without
  counting or looking up anything more.
\<close>

lemma check_domains_returns_when_set:
  "stop_event s \<Longrightarrow>
   check_domains (Suc n) tlds res g s
     = (Some (Inr (successful_domains s)), other_threads s)"
  by (simp add: is_set_def other_threads_fields)




section \<open>The matches\<close>

lemma for_txt_records_result:
  "for_txt_records txts d s =
     (if list_ex (\<lambda>t. txt_matches t (txt_record_to_check s)) txts
      then (True, s\<lparr>successful_domains := successful_domains s @ [d]\<rparr>)
      else (False, s))"
  by (induction txts) simp_all

text \<open>One probe that passes the test of the flag.\<close>

lemma check_txt_probe:
  assumes "\<not> stop_event (other_threads s)"
  shows "check_txt d res s =
     (case fetch_txt_records d res of
        Inl e \<Rightarrow> (Inl e, other_threads s\<lparr>queries := queries s @ [d]\<rparr>)
      | Inr txts \<Rightarrow>
          if candidate_matches res (txt_record_to_check s) d
          then (Inr True, other_threads s\<lparr>queries := queries s @ [d],
                  successful_domains := successful_domains s @ [d]\<rparr>)
          else (Inr False, other_threads s\<lparr>queries := queries s @ [d]\<rparr>))"
  using assms
  by (simp add: check_txt_def is_set_def Let_def for_txt_records_result candidate_matches_def
      other_threads_fields split: sum.split)






text \<open>
  Whenever a candidate that carries the target is probed, the loop leaves it in the
  shared list twice.
\<close>

lemma match_is_appended_twice:
  assumes "\<not> stop_event s" and "stop_in s = None"
    and "candidate_matches res (txt_record_to_check s) d"
  shows "successful_domains (snd (for_domains [d] res s)) = successful_domains s @ [d, d]"
proof -
  let ?s2 = "s\<lparr>domain_count := domain_count s + 1\<rparr>"
  from assms(2) have o: "other_threads s = s" by (rule other_threads_fields(6))
  from assms(2) have o2: "other_threads ?s2 = ?s2" by (simp add: other_threads_fields(6))
  from assms(1) o2 have go: "\<not> stop_event (other_threads ?s2)" by simp
  from assms(3) obtain txts where f: "fetch_txt_records d res = Inr txts"
    by (auto simp add: candidate_matches_def split: sum.splits)
  from check_txt_probe [OF go, of d res] f assms(3)
  have "check_txt d res ?s2 = (Inr True, other_threads ?s2\<lparr>queries := queries ?s2 @ [d],
          successful_domains := successful_domains ?s2 @ [d]\<rparr>)"
    by simp
  with assms(1) o o2 show ?thesis by (simp add: is_set_def)
qed

text \<open>
  Claim C2 at the input it names: words \<^verbatim>\<open>acme\<close> and \<^verbatim>\<open>foo\<close>, TLDs \<^verbatim>\<open>.com\<close> and
  \<^verbatim>\<open>.se\<close>, only \<^verbatim>\<open>acme.se\<close> carrying the target. The domain is appended by line 137
  and again by line 163: the shared list holds it twice and the output file has two
  lines.
\<close>

theorem acme_listed_twice:
  "successful_domains (snd (main_word_list [lit ''acme'', lit ''foo''] [lit ''.com'', lit ''.se'']
      acme_dns (lit ''v=spf1 -all''))) = [lit ''acme.se'', lit ''acme.se''] \<and>
   fst (main_word_list [lit ''acme'', lit ''foo''] [lit ''.com'', lit ''.se'']
      acme_dns (lit ''v=spf1 -all'')) = Some (lit ''acme.se'' @ [10] @ lit ''acme.se'' @ [10])"
  by code_simp

section \<open>The time bound of the continuous mode\<close>

lemma no_completed: "list_all (\<lambda>f. f = Running) fs \<Longrightarrow> filter (\<lambda>f. f = Completed) fs = []"
  by (induction fs) auto

lemma waiting_step: "waiting s \<Longrightarrow> undisturbed e \<Longrightarrow> waiting (step e s)"
  by (cases e) (auto simp add: waiting_def main_step_def no_completed)

lemma waiting_run: "waiting s \<Longrightarrow> list_all undisturbed es \<Longrightarrow> waiting (run es s)"
  by (induction es arbitrary: s) (simp_all add: waiting_step)

lemma waiting_start: "0 < workers \<Longrightarrow> waiting (auto_start workers t)"
  by (simp add: waiting_def auto_start_def list_all_iff)

lemma elapsed_step: "elapsed (step e s) = elapsed s + (if e = Tick then 1 else 0)"
  by (cases e) (auto simp add: main_step_def Let_def split: main_thread.split)

lemma elapsed_run: "elapsed (run es s) = elapsed s + int (length (filter (\<lambda>e. e = Tick) es))"
  by (induction es arbitrary: s) (simp_all add: elapsed_step)

text \<open>
  Claim C1 on the source. With at least one worker, as long as no lookup raises past the
  resolver client and nobody interrupts, the main thread never gets past
  \<^verbatim>\<open>as_completed\<close>, whatever \<^verbatim>\<open>--time\<close> is and however many seconds pass: the test of
  line 241 is inside the loop body, which runs only when a worker has finished, and a
  worker finishes only when the flag is set. The flag is never set, no worker returns and
  the result sink does not run.
\<close>

theorem time_bound_never_fires:
  assumes "0 < workers" and "list_all undisturbed es"
  shows "\<not> flag (run es (auto_start workers t)) \<and>
         main_at (run es (auto_start workers t)) = As_Completed \<and>
         sink_runs (run es (auto_start workers t)) = 0 \<and>
         list_all (\<lambda>f. f = Running) (futures (run es (auto_start workers t))) \<and>
         elapsed (run es (auto_start workers t)) = int (length (filter (\<lambda>e. e = Tick) es))"
proof -
  from assms have "waiting (run es (auto_start workers t))"
    by (simp add: waiting_run waiting_start)
  moreover have "elapsed (auto_start workers t) = 0" by (simp add: auto_start_def)
  ultimately show ?thesis by (simp add: waiting_def elapsed_run)
qed

theorem time_bound_never_fires_witness:
  "time_is_up (run (round_robin 10) (auto_start 1 (Some 2))) \<and>
   \<not> flag (run (round_robin 10) (auto_start 1 (Some 2))) \<and>
   main_at (run (round_robin 10) (auto_start 1 (Some 2))) = As_Completed \<and>
   sink_runs (run (round_robin 10) (auto_start 1 (Some 2))) = 0"
proof -
  have 1: "(0::nat) < 1" by simp
  have 2: "list_all undisturbed (round_robin 10)" by code_simp
  have 3: "time_is_up (run (round_robin 10) (auto_start 1 (Some 2)))" by code_simp
  from time_bound_never_fires [OF 1 2, of "Some 2"] 3 show ?thesis by simp
qed

end
